theory Spec2Isabelle
  imports Complex_Main
begin

section \<open>Numeric model\<close>

text \<open>
  The arrays of the program hold IEEE doubles. They are modelled without rounding:
  a finite value is a real number, and the three non-finite values that a division by
  zero produces in numpy (\<open>0/0 = nan\<close>, \<open>x/0 = \<plusminus>inf\<close>, with a warning and no exception)
  are values of their own. Arithmetic on them follows IEEE 754; a zero divisor is
  taken as \<open>+0.0\<close>, which is what \<open>max - min\<close> of equal values gives.
  A double rounds and overflows where a real number does not, so the value that the
  model computes is the program's value only where the double operations are exact.
  The concrete evaluations below use such inputs (small integers and halves); the
  general statements below are about shapes, errors, and entries that are 1, 0 or not
  finite, and do not rest on exact arithmetic.
\<close>

datatype flt = Fin real | PInf | NInf | NaN

fun fneg :: "flt \<Rightarrow> flt" where
  "fneg (Fin x) = Fin (- x)"
| "fneg PInf = NInf"
| "fneg NInf = PInf"
| "fneg NaN = NaN"

fun fadd :: "flt \<Rightarrow> flt \<Rightarrow> flt" where
  "fadd (Fin x) (Fin y) = Fin (x + y)"
| "fadd NaN _ = NaN"
| "fadd _ NaN = NaN"
| "fadd PInf NInf = NaN"
| "fadd NInf PInf = NaN"
| "fadd PInf _ = PInf"
| "fadd _ PInf = PInf"
| "fadd NInf _ = NInf"
| "fadd _ NInf = NInf"

definition fsub :: "flt \<Rightarrow> flt \<Rightarrow> flt" where
  "fsub x y = fadd x (fneg y)"

fun fmul :: "flt \<Rightarrow> flt \<Rightarrow> flt" where
  "fmul (Fin x) (Fin y) = Fin (x * y)"
| "fmul NaN _ = NaN"
| "fmul _ NaN = NaN"
| "fmul (Fin x) PInf = (if x = 0 then NaN else if 0 < x then PInf else NInf)"
| "fmul (Fin x) NInf = (if x = 0 then NaN else if 0 < x then NInf else PInf)"
| "fmul PInf (Fin y) = (if y = 0 then NaN else if 0 < y then PInf else NInf)"
| "fmul NInf (Fin y) = (if y = 0 then NaN else if 0 < y then NInf else PInf)"
| "fmul PInf PInf = PInf"
| "fmul PInf NInf = NInf"
| "fmul NInf PInf = NInf"
| "fmul NInf NInf = PInf"

fun fdiv :: "flt \<Rightarrow> flt \<Rightarrow> flt" where
  "fdiv (Fin x) (Fin y) =
     (if y \<noteq> 0 then Fin (x / y)
      else if x = 0 then NaN else if 0 < x then PInf else NInf)"
| "fdiv NaN _ = NaN"
| "fdiv _ NaN = NaN"
| "fdiv (Fin x) PInf = Fin 0"
| "fdiv (Fin x) NInf = Fin 0"
| "fdiv PInf (Fin y) = (if 0 \<le> y then PInf else NInf)"
| "fdiv NInf (Fin y) = (if 0 \<le> y then NInf else PInf)"
| "fdiv PInf PInf = NaN"
| "fdiv PInf NInf = NaN"
| "fdiv NInf PInf = NaN"
| "fdiv NInf NInf = NaN"

text \<open>The exceptions of Python and numpy that the modelled code can raise.\<close>

datatype error = ValueError | AttributeError | TypeError | IndexError | AssertionError

section \<open>numpy operations used by the baseline\<close>

text \<open>
  \<open>t - t.mean()\<close>: for an empty array the mean is nan, and the difference is the
  empty array again; otherwise the mean is the sum over the length, here without the
  rounding of the double sum and quotient.
\<close>

definition mean :: "real list \<Rightarrow> real" where
  "mean t = sum_list t / real (length t)"

definition center :: "real list \<Rightarrow> real list" where
  "center t = (if t = [] then [] else map (\<lambda>x. x - mean t) t)"

text \<open>\<open>concatenate\<close> refuses an empty sequence of arrays.\<close>

definition concatenate :: "'a list list \<Rightarrow> error + 'a list" where
  "concatenate ts = (if ts = [] then Inl ValueError else Inr (concat ts))"

text \<open>\<open>a.ptp()\<close> is \<open>a.max() - a.min()\<close>; both reductions refuse an empty array.\<close>

fun ptp :: "real list \<Rightarrow> error + real" where
  "ptp [] = Inl ValueError"
| "ptp (x # xs) = Inr (fold max xs x - fold min xs x)"

text \<open>
  A two-dimensional array is its number of columns and its rows; the number of columns
  is kept because an array of shape \<open>(0, k)\<close> has no row to read it from.
\<close>

type_synonym arr2 = "nat \<times> flt list list"

text \<open>
  \<open>numpy.polynomial.legendre.legvander(x, deg)\<close>: column 0 is \<open>x*0 + 1\<close>, column 1 is
  \<open>x\<close>, and column \<open>i \<ge> 2\<close> is \<open>(v[i-1]*x*(2*i - 1) - v[i-2]*(i - 1))/i\<close>; the result
  has one row per element of \<open>x\<close> and \<open>deg + 1\<close> columns. A negative degree is a
  \<open>ValueError\<close>.
\<close>

fun legcol :: "flt \<Rightarrow> nat \<Rightarrow> flt" where
  "legcol x 0 = fadd (fmul x (Fin 0)) (Fin 1)"
| "legcol x (Suc 0) = x"
| "legcol x (Suc (Suc k)) =
     fdiv (fsub (fmul (fmul (legcol x (Suc k)) x) (Fin (real (2 * (k + 2) - 1))))
                (fmul (legcol x k) (Fin (real ((k + 2) - 1)))))
          (Fin (real (k + 2)))"

definition legvander :: "flt list \<Rightarrow> int \<Rightarrow> error + arr2" where
  "legvander x deg =
     (if deg < 0 then Inl ValueError
      else Inr (nat deg + 1, map (\<lambda>xi. map (legcol xi) [0..<nat deg + 1]) x))"

text \<open>Python slicing \<open>xs[a:b]\<close>: a negative bound counts from the end, and both are clamped.\<close>

definition slice_index :: "int \<Rightarrow> int \<Rightarrow> int" where
  "slice_index i len = (if i < 0 then max (i + len) 0 else min i len)"

definition pyslice :: "'a list \<Rightarrow> int \<times> int \<Rightarrow> 'a list" where
  "pyslice xs sl =
     (let len = int (length xs);
          lo = slice_index (fst sl) len;
          hi = slice_index (snd sl) len
      in take (nat (hi - lo)) (drop (nat lo) xs))"

text \<open>
  \<open>row[a:b] = v\<close> for one-dimensional \<open>v\<close>: the lengths must agree, or \<open>v\<close> has one
  element, which is broadcast; anything else is a \<open>ValueError\<close>.
\<close>

definition setslice :: "'a list \<Rightarrow> int \<times> int \<Rightarrow> 'a list \<Rightarrow> error + 'a list" where
  "setslice row sl v =
     (let len = int (length row);
          lo = slice_index (fst sl) len;
          hi = slice_index (snd sl) len;
          n = nat (hi - lo)
      in if length v = n then Inr (take (nat lo) row @ v @ drop (nat lo + n) row)
         else if length v = 1 then Inr (take (nat lo) row @ replicate n (hd v) @ drop (nat lo + n) row)
         else Inl ValueError)"

text \<open>
  \<open>v @ M.T\<close> for a vector \<open>v\<close> of parameters and a basis matrix \<open>M\<close>: the length of
  \<open>v\<close> must be the number of columns of \<open>M\<close>; the result has one dot product per row,
  whose products and sum are exact here.
\<close>

definition dot :: "real list \<Rightarrow> flt list \<Rightarrow> flt" where
  "dot v r = foldr fadd (map2 (\<lambda>c b. fmul (Fin c) b) v r) (Fin 0)"

definition matmul_T :: "real list \<Rightarrow> arr2 \<Rightarrow> error + flt list" where
  "matmul_T v M = (if length v \<noteq> fst M then Inl ValueError else Inr (map (dot v) (snd M)))"

text \<open>
  \<open>atleast_2d\<close> on the one- and two-dimensional arrays a caller passes. A batch is the
  list of its rows; \<open>baseline\<close> reads the number of columns only through the rows. An
  array has rows of one length: a list of rows of different lengths is not an array
  (numpy refuses to build one), and what is stated about batches of \<open>P\<close> columns is
  stated for rows of length \<open>P\<close>.
\<close>

datatype pvp = Arr1 "real list" | Arr2 "real list list"

fun atleast_2d :: "pvp \<Rightarrow> real list list" where
  "atleast_2d (Arr1 v) = [v]"
| "atleast_2d (Arr2 m) = m"

section \<open>The parameter system\<close>

datatype NormalPrior = NP real real

record LParameter =
  par_name :: string
  par_description :: string
  par_unit :: string
  par_prior :: NormalPrior
  par_bounds :: "real \<times> real"

definition LParameter :: "string \<Rightarrow> string \<Rightarrow> string \<Rightarrow> NormalPrior \<Rightarrow> real \<times> real \<Rightarrow> LParameter" where
  "LParameter n d u p b =
     \<lparr>par_name = n, par_description = d, par_unit = u, par_prior = p, par_bounds = b\<rparr>"

record ParameterBlock =
  block_name :: string
  start :: int
  slice :: "int \<times> int"

record ParameterSet =
  parameters :: "LParameter list"
  blocks :: "ParameterBlock list"

text \<open>
  Modelled from the spec: the parameter set's \<open>add_lightcurve_block\<close> is not among the
  sources. Blocks are appended contiguously to one parameter vector; a block exposes
  the absolute index range it occupies (\<open>slice\<close>) and its absolute start offset
  (\<open>start\<close>); the block has \<open>size_per_curve * n_curves\<close> entries.
\<close>

definition add_lightcurve_block ::
  "string \<Rightarrow> int \<Rightarrow> nat \<Rightarrow> LParameter list \<Rightarrow> ParameterSet \<Rightarrow> ParameterSet" where
  "add_lightcurve_block nm pplc n pars reg =
     (let st = int (length (parameters reg)) in
      reg\<lparr>parameters := parameters reg @ pars,
          blocks := blocks reg @
            [\<lparr>block_name = nm, start = st, slice = (st, st + pplc * int n)\<rparr>]\<rparr>)"

text \<open>Decimal formatting of the indices inside the parameter names.\<close>

function str_nat :: "nat \<Rightarrow> string" where
  "str_nat n =
     (if n < 10 then [char_of (48 + n)]
      else str_nat (n div 10) @ [char_of (48 + n mod 10)])"
  by pat_completeness auto
termination
  by (relation "measure id") auto

declare str_nat.simps [simp del]

section \<open>LegendreBaseline\<close>

text \<open>
  The attributes of the object. An attribute that is absent or \<open>None\<close> is \<open>None\<close>.
  \<open>timea\<close>, \<open>lcslices\<close>, \<open>nlc\<close>, \<open>ps\<close>, \<open>times\<close> and \<open>ofluxa\<close> are filled by the
  class that owns the light curves; the others by \<open>_init_p_baseline\<close>. The attribute
  \<open>times\<close> is \<open>times_arr\<close> here, \<open>_sl_bl\<close> is \<open>sl_bl\<close> and \<open>_start_bl\<close> is \<open>start_bl\<close>;
  \<open>_init_p_baseline\<close> returns the object as it is after the call, or the exception.
\<close>

record LegendreBaseline =
  nlegendre :: int
  times_arr :: "real list list"
  timea :: "real list option"
  lcslices :: "(int \<times> int) list option"
  nlc :: nat
  ps :: "ParameterSet option"
  ofluxa :: "real list option"
  mtimes :: "flt list list option"
  windows :: "real option"
  legs :: "arr2 list option"
  sl_bl :: "(int \<times> int) option"
  start_bl :: "int option"

definition LegendreBaseline_init :: "int \<Rightarrow> LegendreBaseline" where
  "LegendreBaseline_init n =
     \<lparr>nlegendre = n, times_arr = [], timea = None, lcslices = None, nlc = 0, ps = None,
      ofluxa = None, mtimes = None, windows = None, legs = None, sl_bl = None,
      start_bl = None\<rparr>"

fun legvander_each :: "flt list list \<Rightarrow> int \<Rightarrow> error + arr2 list" where
  "legvander_each [] deg = Inr []"
| "legvander_each (t # ts) deg =
     (case legvander t deg of
        Inl e \<Rightarrow> Inl e
      | Inr v \<Rightarrow> (case legvander_each ts deg of Inl e \<Rightarrow> Inl e | Inr vs \<Rightarrow> Inr (v # vs)))"

definition baseline_parameters :: "nat \<Rightarrow> int \<Rightarrow> LParameter list" where
  "baseline_parameters n deg =
     concat (map (\<lambda>tn.
        LParameter (''bli_'' @ str_nat tn) (''bl_intercept_'' @ str_nat tn) ''''
          (NP 1.0 0.01) (0.98, 1.02)
        # map (\<lambda>ipoly.
            LParameter (''bls_'' @ str_nat tn @ ''_'' @ str_nat (nat ipoly))
              (''bl_c_'' @ str_nat tn @ ''_'' @ str_nat (nat ipoly)) ''''
              (NP 0.0 0.001) (- 0.1, 0.1))
          [1..deg])
      [0..<n])"

definition init_p_baseline :: "LegendreBaseline \<Rightarrow> error + LegendreBaseline" where
  "init_p_baseline self =
     (let centered = map center (times_arr self) in
      case concatenate centered of Inl e \<Rightarrow> Inl e | Inr cat \<Rightarrow>
      case ptp cat of Inl e \<Rightarrow> Inl e | Inr window \<Rightarrow>
      let mts = map (map (\<lambda>c. fdiv (Fin c) (Fin window))) centered in
      case legvander_each mts (nlegendre self) of Inl e \<Rightarrow> Inl e | Inr lgs \<Rightarrow>
      case ofluxa self of None \<Rightarrow> Inl AttributeError | Some ofl \<Rightarrow>
      let bls = baseline_parameters (nlc self) (nlegendre self) in
      case ps self of None \<Rightarrow> Inl AttributeError | Some reg \<Rightarrow>
      let reg' = add_lightcurve_block ''baseline'' (nlegendre self + 1) (nlc self) bls reg in
      Inr (self\<lparr>mtimes := Some mts, windows := Some window, legs := Some lgs,
                ofluxa := Some ofl, ps := Some reg',
                sl_bl := Some (slice (last (blocks reg'))),
                start_bl := Some (start (last (blocks reg')))\<rparr>))"

text \<open>
  The loop over the light curves of \<open>baseline\<close>, for one parameter vector: \<open>itr\<close> counts
  the light curves, \<open>row\<close> is the output row so far.
\<close>

fun baseline_lcs ::
  "int \<Rightarrow> arr2 list option \<Rightarrow> real list \<Rightarrow> nat \<Rightarrow> (int \<times> int) list \<Rightarrow> flt list \<Rightarrow> error + flt list" where
  "baseline_lcs n lgs bl itr [] row = Inr row"
| "baseline_lcs n lgs bl itr (sl # sls) row =
     (case lgs of None \<Rightarrow> Inl AttributeError | Some lg \<Rightarrow>
      if length lg \<le> itr then Inl IndexError else
      case matmul_T (pyslice bl (int itr * (n + 1), (int itr + 1) * (n + 1))) (lg ! itr) of
        Inl e \<Rightarrow> Inl e
      | Inr v \<Rightarrow>
          (case setslice row sl v of
             Inl e \<Rightarrow> Inl e
           | Inr row' \<Rightarrow> baseline_lcs n lgs bl (Suc itr) sls row'))"

text \<open>The loop over the parameter vectors; \<open>T\<close> is \<open>self.timea.size\<close>.\<close>

fun baseline_rows :: "LegendreBaseline \<Rightarrow> nat \<Rightarrow> real list list \<Rightarrow> error + flt list list" where
  "baseline_rows self T [] = Inr []"
| "baseline_rows self T (pv # pvs) =
     (case sl_bl self of None \<Rightarrow> Inl AttributeError | Some sl \<Rightarrow>
      case lcslices self of None \<Rightarrow> Inl TypeError | Some lcs \<Rightarrow>
      case baseline_lcs (nlegendre self) (legs self) (pyslice pv sl) 0 lcs (replicate T (Fin 0)) of
        Inl e \<Rightarrow> Inl e
      | Inr row \<Rightarrow>
          (case baseline_rows self T pvs of Inl e \<Rightarrow> Inl e | Inr rows \<Rightarrow> Inr (row # rows)))"

definition baseline :: "LegendreBaseline \<Rightarrow> pvp \<Rightarrow> error + flt list list" where
  "baseline self p =
     (let m = atleast_2d p in
      case timea self of None \<Rightarrow> Inl AttributeError
      | Some ta \<Rightarrow> baseline_rows self (length ta) m)"

text \<open>
  Modelled from the spec: the class that owns the light curves and calls
  \<open>_init_p_baseline\<close> is not among the sources. \<open>setup\<close> stores the light curves' times,
  their concatenation, the index range of each light curve in the concatenation, the
  number of light curves, the observed fluxes and the parameter registry, and then
  builds the bases and registers the parameter block.
\<close>

fun lcslices_of :: "nat \<Rightarrow> 'a list list \<Rightarrow> (int \<times> int) list" where
  "lcslices_of off [] = []"
| "lcslices_of off (t # ts) = (int off, int (off + length t)) # lcslices_of (off + length t) ts"

definition setup_baseline ::
  "real list list \<Rightarrow> real list list \<Rightarrow> int \<Rightarrow> ParameterSet \<Rightarrow> error + LegendreBaseline" where
  "setup_baseline ts fluxes degree reg =
     init_p_baseline ((LegendreBaseline_init degree)
       \<lparr>times_arr := ts, timea := Some (concat ts), lcslices := Some (lcslices_of 0 ts),
        nlc := length ts, ps := Some reg, ofluxa := Some (concat fluxes)\<rparr>)"

text \<open>\<open>evaluate\<close> after \<open>setup\<close>, as one call.\<close>

definition setup_then_baseline ::
  "real list list \<Rightarrow> real list list \<Rightarrow> int \<Rightarrow> ParameterSet \<Rightarrow> pvp \<Rightarrow> error + flt list list" where
  "setup_then_baseline ts fluxes degree reg p =
     (case setup_baseline ts fluxes degree reg of Inl e \<Rightarrow> Inl e | Inr self \<Rightarrow> baseline self p)"

section \<open>Filters\<close>

text \<open>
  The filter classes. A subclass is an extension of the record of its base class; the
  base method \<open>sample\<close> calls \<open>self(wl)\<close>, so it takes the \<open>__call__\<close> of the object's
  class as an argument. \<open>1e-5\<close> is \<open>1 / 100000\<close>. The argument \<open>n\<close> is optional in the
  source; a call that leaves it out passes \<open>Some 100\<close>. The end points
  \<open>wl_min + 1e-5\<close> and \<open>wl_max - 1e-5\<close> are exact here, while a double sum can round to
  \<open>wl_min\<close> itself; what is stated below about \<open>sample\<close> uses the number of points only.
\<close>

record Filter =
  name :: string
  wl_min :: real
  wl_max :: real

definition Filter_init :: "string \<Rightarrow> Filter" where
  "Filter_init nm = \<lparr>name = nm, wl_min = 250, wl_max = 1000\<rparr>"

text \<open>\<open>Filter.__call__\<close> returns the class \<open>NotImplementedError\<close>; it does not raise it.\<close>

datatype transmission = NotImplementedError_class | Transmission "real list"

text \<open>
  \<open>linspace(a, b, num)\<close>: \<open>num\<close> evenly spaced points from \<open>a\<close> to \<open>b\<close>; \<open>None\<close> is a
  \<open>TypeError\<close>, a negative number a \<open>ValueError\<close>.
\<close>

definition linspace :: "real \<Rightarrow> real \<Rightarrow> int option \<Rightarrow> error + real list" where
  "linspace a b num =
     (case num of
        None \<Rightarrow> Inl TypeError
      | Some n \<Rightarrow>
          if n < 0 then Inl ValueError
          else if n = 1 then Inr [a]
          else Inr (map (\<lambda>i. a + real i * ((b - a) / real_of_int (n - 1))) [0..<nat n]))"

definition Filter_call :: "'a Filter_scheme \<Rightarrow> real list \<Rightarrow> error + transmission" where
  "Filter_call self w = Inr NotImplementedError_class"

definition Filter_sample ::
  "('a Filter_scheme \<Rightarrow> real list \<Rightarrow> error + transmission) \<Rightarrow> 'a Filter_scheme \<Rightarrow> int option
     \<Rightarrow> error + real list \<times> transmission" where
  "Filter_sample call self n =
     (case linspace (wl_min self + 1 / 100000) (wl_max self - 1 / 100000) n of
        Inl e \<Rightarrow> Inl e
      | Inr w \<Rightarrow> (case call self w of Inl e \<Rightarrow> Inl e | Inr t \<Rightarrow> Inr (w, t)))"

text \<open>
  \<open>TabulatedFilter\<close>. The interpolator that \<open>scipy.interpolate.interp1d\<close> builds is a
  parameter of the constructor. \<open>wl.min()\<close> of an empty array is a \<open>ValueError\<close>; the
  three assertions follow.
\<close>

record TabulatedFilter = Filter +
  wl :: "real list"
  tm :: "real list"
  ip :: "real list \<Rightarrow> error + real list"

fun diff :: "real list \<Rightarrow> real list" where
  "diff (x # y # xs) = (y - x) # diff (y # xs)"
| "diff _ = []"

definition TabulatedFilter_init ::
  "(real list \<Rightarrow> real list \<Rightarrow> error + (real list \<Rightarrow> error + real list)) \<Rightarrow>
     string \<Rightarrow> real list \<Rightarrow> real list \<Rightarrow> error + TabulatedFilter" where
  "TabulatedFilter_init interp1d nm w t =
     (case w of
        [] \<Rightarrow> Inl ValueError
      | x # xs \<Rightarrow>
          if length w \<noteq> length t then Inl AssertionError
          else if \<not> list_all (\<lambda>d. 0 < d) (diff w) then Inl AssertionError
          else if \<not> list_all (\<lambda>v. 0 \<le> v \<and> v \<le> 1) t then Inl AssertionError
          else (case interp1d w t of
                  Inl e \<Rightarrow> Inl e
                | Inr f \<Rightarrow>
                    Inr (Filter.extend
                          ((Filter_init nm)\<lparr>wl_min := fold min xs x, wl_max := fold max xs x\<rparr>)
                          (TabulatedFilter.fields w t f))))"

definition TabulatedFilter_call :: "TabulatedFilter \<Rightarrow> real list \<Rightarrow> error + transmission" where
  "TabulatedFilter_call self w = map_sum id Transmission (ip self w)"

definition TabulatedFilter_sample :: "TabulatedFilter \<Rightarrow> int option \<Rightarrow> real list \<times> real list" where
  "TabulatedFilter_sample self n = (wl self, tm self)"

section \<open>Auxiliary definitions\<close>

text \<open>
  What the loop over the light curves computes when every coefficient slice has the
  right length: the dot products of light curve \<open>itr\<close>, followed by those of the later
  light curves.
\<close>

fun baseline_curves :: "nat \<Rightarrow> real list \<Rightarrow> nat \<Rightarrow> arr2 list \<Rightarrow> flt list" where
  "baseline_curves n bl itr [] = []"
| "baseline_curves n bl itr (M # Ms) =
     map (dot (take (n + 1) (drop (itr * (n + 1)) bl))) (snd M) @ baseline_curves n bl (Suc itr) Ms"

text \<open>The basis matrix of one light curve, and the normalised times of all of them.\<close>

definition basis :: "nat \<Rightarrow> flt list \<Rightarrow> arr2" where
  "basis n x = (n + 1, map (\<lambda>xi. map (legcol xi) [0..<n + 1]) x)"

definition normalized :: "real list list \<Rightarrow> real \<Rightarrow> flt list list" where
  "normalized ts w = map (map (\<lambda>c. fdiv (Fin c) (Fin w))) (map center ts)"

text \<open>
  The end of the baseline block in the parameter vector, which is the length of the
  parameter vector once the block is registered.
\<close>

definition block_end :: "ParameterSet \<Rightarrow> real list list \<Rightarrow> int \<Rightarrow> nat" where
  "block_end reg ts deg = length (parameters reg) + length ts * (nat deg + 1)"

definition basis_of :: "real list list \<Rightarrow> int \<Rightarrow> real \<Rightarrow> arr2 list" where
  "basis_of ts deg w = map (basis (nat deg)) (normalized ts w)"

text \<open>
  The baseline block that is neutral: for each of \<open>n\<close> light curves the intercept 1
  followed by \<open>deg\<close> coefficients 0.
\<close>

definition neutral_block :: "nat \<Rightarrow> int \<Rightarrow> real list" where
  "neutral_block n deg = concat (replicate n (1 # replicate (nat deg) 0))"

text \<open>
  The finite values; the states whose basis matrices \<open>lg\<close> have \<open>n + 1\<close> columns and
  whose slices and output length are those of \<open>lg\<close>, as \<open>setup\<close> leaves them, with the
  slice \<open>sl\<close> of the baseline block; and the basis rows that hold 1 in column 0 and
  finite values elsewhere.
\<close>

definition is_fin :: "flt \<Rightarrow> bool" where
  "is_fin x = (case x of Fin y \<Rightarrow> True | _ \<Rightarrow> False)"

definition basis_state :: "LegendreBaseline \<Rightarrow> nat \<Rightarrow> arr2 list \<Rightarrow> int \<times> int \<Rightarrow> bool" where
  "basis_state s n lg sl =
     (nlegendre s = int n \<and> legs s = Some lg \<and>
      list_all (\<lambda>M. fst M = n + 1 \<and> list_all (\<lambda>r. length r = n + 1) (snd M)) lg \<and>
      lcslices s = Some (lcslices_of 0 (map snd lg)) \<and>
      map_option length (timea s) = Some (length (concat (map snd lg))) \<and>
      sl_bl s = Some sl)"

definition finite_row :: "flt list \<Rightarrow> bool" where
  "finite_row r = (list_all is_fin r \<and> hd r = Fin 1)"

section \<open>Properties of the numeric operations and of the loops\<close>

lemma length_center: "length (center t) = length t"
  by (simp add: center_def)

lemma ptp_Max_Min:
  assumes "xs \<noteq> []"
  shows "ptp xs = Inr (Max (set xs) - Min (set xs))"
proof (cases xs)
  case Nil
  with assms show ?thesis by simp
next
  case (Cons a list)
  have "Max (set (a # list)) = fold max list a" "Min (set (a # list)) = fold min list a"
    by (rule Max.set_eq_fold, rule Min.set_eq_fold)
  with Cons show ?thesis by simp
qed

lemma pyslice_nat: "pyslice xs (int a, int b) = take (b - a) (drop a xs)"
proof (cases "a \<le> length xs")
  case True
  then show ?thesis
    by (cases "b \<le> length xs") (auto simp: pyslice_def slice_index_def Let_def min_def nat_diff_distrib')
next
  case False
  then show ?thesis
    by (auto simp: pyslice_def slice_index_def Let_def min_def)
qed

lemma legvander_each_ok:
  "0 \<le> deg \<Longrightarrow> legvander_each xs deg = Inr (map (basis (nat deg)) xs)"
  by (induction xs) (auto simp: legvander_def basis_def)

lemma legvander_each_neg:
  "deg < 0 \<Longrightarrow> xs \<noteq> [] \<Longrightarrow> legvander_each xs deg = Inl ValueError"
  by (cases xs) (auto simp: legvander_def)

lemma init_p_baseline_Inr:
  assumes "init_p_baseline self = Inr s"
  shows "times_arr self \<noteq> [] \<and> 0 \<le> nlegendre self \<and>
    (\<exists>w. ptp (concat (map center (times_arr self))) = Inr w \<and> windows s = Some w \<and>
       mtimes s = Some (normalized (times_arr self) w) \<and>
       legs s = Some (map (basis (nat (nlegendre self))) (normalized (times_arr self) w))) \<and>
    (\<exists>reg. ps self = Some reg \<and>
       sl_bl s = Some (int (length (parameters reg)),
                       int (length (parameters reg)) + (nlegendre self + 1) * int (nlc self))) \<and>
    nlegendre s = nlegendre self \<and> times_arr s = times_arr self \<and> timea s = timea self \<and>
    lcslices s = lcslices self \<and> nlc s = nlc self"
proof -
  have ne: "times_arr self \<noteq> []"
    using assms by (auto simp: init_p_baseline_def concatenate_def Let_def split: if_splits)
  have deg: "0 \<le> nlegendre self"
  proof (rule ccontr)
    assume "\<not> 0 \<le> nlegendre self"
    then have "legvander_each (normalized (times_arr self) w) (nlegendre self) = Inl ValueError" for w
      using ne by (intro legvander_each_neg) (auto simp: normalized_def)
    then show False
      using assms ne
      by (auto simp: init_p_baseline_def concatenate_def Let_def normalized_def split: sum.splits)
  qed
  show ?thesis
    using assms ne deg
    by (auto simp: init_p_baseline_def concatenate_def Let_def normalized_def legvander_each_ok
        add_lightcurve_block_def split: sum.splits option.splits)
qed

lemma setup_baseline_Inr:
  assumes "setup_baseline ts fl deg reg = Inr s"
  shows "ts \<noteq> [] \<and> 0 \<le> deg \<and>
    (\<exists>w. ptp (concat (map center ts)) = Inr w \<and> windows s = Some w \<and>
       mtimes s = Some (normalized ts w) \<and>
       legs s = Some (map (basis (nat deg)) (normalized ts w))) \<and>
    sl_bl s = Some (int (length (parameters reg)),
                    int (length (parameters reg)) + (deg + 1) * int (length ts)) \<and>
    nlegendre s = deg \<and> timea s = Some (concat ts) \<and> lcslices s = Some (lcslices_of 0 ts)"
  using init_p_baseline_Inr [OF assms [unfolded setup_baseline_def]]
  by (simp add: LegendreBaseline_init_def)

lemma setup_baseline_succeeds:
  assumes "concat ts \<noteq> []" and "0 \<le> deg"
  shows "\<exists>s. setup_baseline ts fl deg reg = Inr s"
proof -
  have ne: "ts \<noteq> []" using assms(1) by auto
  have "concat (map center ts) \<noteq> []"
    using assms(1) by (auto simp: center_def)
  then obtain w where "ptp (concat (map center ts)) = Inr w"
    using ptp_Max_Min by blast
  then show ?thesis
    using ne assms(2)
    by (simp add: setup_baseline_def init_p_baseline_def LegendreBaseline_init_def concatenate_def
        Let_def legvander_each_ok)
qed

lemma coef_slice:
  "pyslice bl (int itr * (int n + 1), (int itr + 1) * (int n + 1)) = take (n + 1) (drop (itr * (n + 1)) bl)"
proof -
  have "int itr * (int n + 1) = int (itr * (n + 1))" "(int itr + 1) * (int n + 1) = int ((itr + 1) * (n + 1))"
    by (simp_all add: algebra_simps)
  then show ?thesis
    by (simp only: pyslice_nat) simp
qed

lemma setslice_exact:
  assumes "length pre = off" and "length v \<le> length rest"
  shows "setslice (pre @ rest) (int off, int (off + length v)) v = Inr (pre @ v @ drop (length v) rest)"
  using assms
  by (auto simp: setslice_def slice_index_def Let_def min_def nat_diff_distrib' nat_add_distrib)

lemma baseline_lcs_ok:
  assumes "\<forall>M\<in>set Ms. fst M = n + 1"
    and "lg = done @ Ms" and "itr = length done"
    and "(itr + length Ms) * (n + 1) \<le> length bl"
    and "length pre = off" and "length rest = length (concat (map snd Ms))"
  shows "baseline_lcs (int n) (Some lg) bl itr (lcslices_of off (map snd Ms)) (pre @ rest) =
           Inr (pre @ baseline_curves n bl itr Ms)"
  using assms
proof (induction Ms arbitrary: "done" itr off pre rest)
  case Nil
  then show ?case by simp
next
  case (Cons M Ms)
  let ?c = "take (n + 1) (drop (itr * (n + 1)) bl)"
  let ?v = "map (dot ?c) (snd M)"
  have M: "lg ! itr = M" "itr < length lg" "fst M = n + 1"
    using Cons.prems by auto
  have "(itr + 1) * (n + 1) \<le> length bl"
    using Cons.prems(4) by (simp add: algebra_simps)
  then have lc: "length ?c = n + 1" by (simp add: algebra_simps)
  have mm: "matmul_T (pyslice bl (int itr * (int n + 1), (int itr + 1) * (int n + 1))) (lg ! itr) = Inr ?v"
    using M lc by (simp add: coef_slice matmul_T_def)
  have lv: "length ?v \<le> length rest" using Cons.prems(6) by simp
  have ss: "setslice (pre @ rest) (int off, int (off + length (snd M))) ?v
              = Inr ((pre @ ?v) @ drop (length (snd M)) rest)"
    using setslice_exact [OF Cons.prems(5) lv] by simp
  have IH: "baseline_lcs (int n) (Some lg) bl (Suc itr) (lcslices_of (off + length (snd M)) (map snd Ms))
              ((pre @ ?v) @ drop (length (snd M)) rest) = Inr ((pre @ ?v) @ baseline_curves n bl (Suc itr) Ms)"
    using Cons.prems by (intro Cons.IH [where ?done = "done @ [M]"]) auto
  show ?case
    using M(2) mm ss IH by simp
qed

lemma baseline_lcs_short:
  assumes "\<forall>M\<in>set Ms. fst M = n + 1"
    and "lg = done @ Ms" and "itr = length done"
    and "length bl < (itr + length Ms) * (n + 1)" and "Ms \<noteq> []"
    and "length pre = off" and "length rest = length (concat (map snd Ms))"
  shows "baseline_lcs (int n) (Some lg) bl itr (lcslices_of off (map snd Ms)) (pre @ rest) = Inl ValueError"
  using assms
proof (induction Ms arbitrary: "done" itr off pre rest)
  case Nil
  then show ?case by simp
next
  case (Cons M Ms)
  let ?c = "take (n + 1) (drop (itr * (n + 1)) bl)"
  let ?v = "map (dot ?c) (snd M)"
  have M: "lg ! itr = M" "itr < length lg" "fst M = n + 1"
    using Cons.prems by auto
  show ?case
  proof (cases "(itr + 1) * (n + 1) \<le> length bl")
    case False
    then have "length ?c \<noteq> n + 1" by (auto simp: algebra_simps)
    then have "matmul_T (pyslice bl (int itr * (int n + 1), (int itr + 1) * (int n + 1))) (lg ! itr)
                 = Inl ValueError"
      using M by (simp add: coef_slice matmul_T_def)
    then show ?thesis using M(2) by simp
  next
    case True
    then have lc: "length ?c = n + 1" by (simp add: algebra_simps)
    have ne: "Ms \<noteq> []"
      using True Cons.prems(4) by (cases Ms) auto
    have mm: "matmul_T (pyslice bl (int itr * (int n + 1), (int itr + 1) * (int n + 1))) (lg ! itr) = Inr ?v"
      using M lc by (simp add: coef_slice matmul_T_def)
    have lv: "length ?v \<le> length rest" using Cons.prems(7) by simp
    have ss: "setslice (pre @ rest) (int off, int (off + length (snd M))) ?v
                = Inr ((pre @ ?v) @ drop (length (snd M)) rest)"
      using setslice_exact [OF Cons.prems(6) lv] by simp
    have IH: "baseline_lcs (int n) (Some lg) bl (Suc itr) (lcslices_of (off + length (snd M)) (map snd Ms))
                ((pre @ ?v) @ drop (length (snd M)) rest) = Inl ValueError"
      using Cons.prems ne by (intro Cons.IH [where ?done = "done @ [M]"]) auto
    show ?thesis
      using M(2) mm ss IH by simp
  qed
qed

lemma lcslices_of_cong:
  "map length xs = map length ys \<Longrightarrow> lcslices_of off xs = lcslices_of off ys"
proof (induction xs arbitrary: ys off)
  case Nil
  then show ?case by simp
next
  case (Cons x xs)
  then obtain y ys' where "ys = y # ys'" by (cases ys) auto
  with Cons show ?case by simp
qed

lemma basis_of_shape:
  "map length (map snd (basis_of ts deg w)) = map length ts"
  "\<forall>M\<in>set (basis_of ts deg w). fst M = nat deg + 1"
  "length (basis_of ts deg w) = length ts"
  "length (concat (map snd (basis_of ts deg w))) = length (concat ts)"
proof -
  show a: "map length (map snd (basis_of ts deg w)) = map length ts"
    by (simp add: basis_of_def basis_def normalized_def length_center comp_def)
  show "\<forall>M\<in>set (basis_of ts deg w). fst M = nat deg + 1"
    by (auto simp: basis_of_def basis_def)
  show "length (basis_of ts deg w) = length ts"
    by (simp add: basis_of_def normalized_def)
  have "length (concat xs) = sum_list (map length xs)" for xs :: "'a list list"
    by (simp add: length_concat)
  then show "length (concat (map snd (basis_of ts deg w))) = length (concat ts)"
    using a by (metis length_concat)
qed

lemma block_slice:
  assumes "0 \<le> deg"
  shows "pyslice pv (int (length (parameters reg)), int (length (parameters reg)) + (deg + 1) * int (length ts))
           = take (length ts * (nat deg + 1)) (drop (length (parameters reg)) pv)"
proof -
  have "int (length (parameters reg)) + (deg + 1) * int (length ts)
          = int (length (parameters reg) + length ts * (nat deg + 1))"
    using assms by (simp add: algebra_simps)
  then show ?thesis by (simp only: pyslice_nat) simp
qed

lemma baseline_row_after_setup:
  assumes "setup_baseline ts fl deg reg = Inr s" and "windows s = Some w" and "sl_bl s = Some sl"
  shows "baseline_lcs (nlegendre s) (legs s) (pyslice pv sl) 0 (lcslices_of 0 ts)
           (replicate (length (concat ts)) (Fin 0)) =
         (if block_end reg ts deg \<le> length pv
          then Inr (baseline_curves (nat deg) (pyslice pv sl) 0 (basis_of ts deg w))
          else Inl ValueError)"
proof -
  note S = setup_baseline_Inr [OF assms(1)]
  let ?lg = "basis_of ts deg w"
  let ?bl = "pyslice pv sl"
  have deg: "0 \<le> deg" "int (nat deg) = deg" and ne: "ts \<noteq> []" using S by auto
  have lg: "legs s = Some ?lg" using S assms(2) by (auto simp: basis_of_def)
  have sl: "sl = (int (length (parameters reg)), int (length (parameters reg)) + (deg + 1) * int (length ts))"
    using S assms(3) by simp
  have bl: "?bl = take (length ts * (nat deg + 1)) (drop (length (parameters reg)) pv)"
    unfolding sl by (rule block_slice [OF deg(1)])
  have slices: "lcslices_of 0 ts = lcslices_of 0 (map snd ?lg)"
    by (rule lcslices_of_cong) (simp only: basis_of_shape(1))
  have lenrest: "length (replicate (length (concat ts)) (Fin 0)) = length (concat (map snd ?lg))"
    by (simp add: basis_of_shape(4))
  have pos: "0 < length ts * (nat deg + 1)" using ne by simp
  show ?thesis
  proof (cases "block_end reg ts deg \<le> length pv")
    case True
    then have "(0 + length ?lg) * (nat deg + 1) \<le> length ?bl"
      by (simp add: bl block_end_def basis_of_shape(3))
    from baseline_lcs_ok [OF basis_of_shape(2) _ _ this _ lenrest, of ?lg "[]" "[]" 0]
    show ?thesis using True lg S deg slices by simp
  next
    case False
    define K where "K = length ts * (nat deg + 1)"
    have "\<not> length (parameters reg) + K \<le> length pv" "0 < K"
      using False pos by (simp_all add: block_end_def K_def)
    then have "min (length pv - length (parameters reg)) K < K" by arith
    then have short: "length ?bl < (0 + length ?lg) * (nat deg + 1)"
      by (simp add: bl basis_of_shape(3) K_def min.commute)
    have "?lg \<noteq> []" using ne basis_of_shape(3) [of ts deg w] by auto
    from baseline_lcs_short [OF basis_of_shape(2) _ _ short this _ lenrest, of ?lg "[]" "[]" 0]
    show ?thesis using False lg S deg slices by simp
  qed
qed

lemma baseline_rows_all:
  assumes "sl_bl s = Some sl" and "lcslices s = Some lcs"
    and "\<And>pv. baseline_lcs (nlegendre s) (legs s) (pyslice pv sl) 0 lcs (replicate T (Fin 0)) =
           (if ok pv then Inr (f pv) else Inl ValueError)"
  shows "baseline_rows s T m = (if list_all ok m then Inr (map f m) else Inl ValueError)"
  by (induction m) (auto simp: assms)

lemma baseline_after_setup:
  assumes "setup_baseline ts fl deg reg = Inr s" and "windows s = Some w" and "sl_bl s = Some sl"
  shows "baseline s p =
    (if list_all (\<lambda>pv. block_end reg ts deg \<le> length pv) (atleast_2d p)
     then Inr (map (\<lambda>pv. baseline_curves (nat deg) (pyslice pv sl) 0 (basis_of ts deg w)) (atleast_2d p))
     else Inl ValueError)"
proof -
  note S = setup_baseline_Inr [OF assms(1)]
  have "timea s = Some (concat ts)" "lcslices s = Some (lcslices_of 0 ts)" using S by auto
  then show ?thesis
    using baseline_rows_all [OF assms(3), of "lcslices_of 0 ts" "length (concat ts)", 
        OF _ baseline_row_after_setup [OF assms]]
    by (simp add: baseline_def)
qed

lemma setup_fields:
  assumes "setup_baseline ts fl deg reg = Inr s"
  obtains w sl where "windows s = Some w" and "sl_bl s = Some sl"
    and "sl = (int (length (parameters reg)), int (length (parameters reg)) + (deg + 1) * int (length ts))"
    and "ptp (concat (map center ts)) = Inr w"
  using setup_baseline_Inr [OF assms] by auto

lemma length_baseline_parameters:
  "0 \<le> deg \<Longrightarrow> length (baseline_parameters n deg) = n * (nat deg + 1)"
  by (simp add: baseline_parameters_def length_concat comp_def sum_list_triv)

lemma setup_baseline_ps:
  assumes "setup_baseline ts fl deg reg = Inr s"
  shows "\<exists>reg'. ps s = Some reg' \<and> length (parameters reg') = block_end reg ts deg"
proof -
  have deg: "0 \<le> deg" using setup_baseline_Inr [OF assms] by simp
  show ?thesis
    using assms deg
    by (auto simp: setup_baseline_def init_p_baseline_def LegendreBaseline_init_def Let_def
        add_lightcurve_block_def block_end_def length_baseline_parameters
        split: sum.splits option.splits)
qed

lemma length_baseline_curves:
  "length (baseline_curves n bl itr Ms) = length (concat (map snd Ms))"
  by (induction Ms arbitrary: itr) auto

lemma baseline_rows_cong:
  assumes "length m = length m'"
    and "\<And>sl i. sl_bl s = Some sl \<Longrightarrow> i < length m \<Longrightarrow> pyslice (m ! i) sl = pyslice (m' ! i) sl"
  shows "baseline_rows s T m = baseline_rows s T m'"
  using assms
proof (induction m m' rule: list_induct2)
  case Nil
  then show ?case by simp
next
  case (Cons x xs y ys)
  have tl: "baseline_rows s T xs = baseline_rows s T ys"
  proof (rule Cons.IH)
    fix sl i assume "sl_bl s = Some sl" "i < length xs"
    then show "pyslice (xs ! i) sl = pyslice (ys ! i) sl"
      using Cons.prems [of sl "Suc i"] by simp
  qed
  have hd: "pyslice x sl = pyslice y sl" if "sl_bl s = Some sl" for sl
    using Cons.prems [of sl 0] that by simp
  show ?case
  proof (cases "sl_bl s")
    case None
    then show ?thesis by simp
  next
    case (Some sl)
    have e: "pyslice x sl = pyslice y sl" by (rule hd [OF Some])
    show ?thesis unfolding baseline_rows.simps Some option.case e tl ..
  qed
qed

lemma normalized_nth:
  "normalized ts w = map (\<lambda>t. map (\<lambda>x. fdiv (Fin (x - mean t)) (Fin w)) t) ts"
  by (auto simp: normalized_def center_def)

lemma center_map: "center t = map (\<lambda>x. x - mean t) t"
  by (simp add: center_def)

lemma example_setup:
  "\<exists>s. setup_baseline [[0, 1, 2], [10, 11, 12]] fl 2 reg = Inr s \<and> windows s = Some 2"
proof -
  have "concat [[0, 1, 2], [10, 11, 12::real]] \<noteq> []" by simp
  from setup_baseline_succeeds [OF this, of 2 fl reg]
  obtain s where s: "setup_baseline [[0, 1, 2], [10, 11, 12]] fl 2 reg = Inr s" by auto
  have "map_sum id windows (setup_baseline [[0, 1, 2], [10, 11, 12]] fl 2 reg) = Inr (Some 2)"
    by (simp add: setup_baseline_def init_p_baseline_def LegendreBaseline_init_def concatenate_def
      center_def mean_def legvander_def add_lightcurve_block_def Let_def)
  with s show ?thesis by simp
qed

lemma dot_Cons: "dot (c # cs) (b # bs) = fadd (fmul (Fin c) b) (dot cs bs)"
  by (simp add: dot_def)

lemma dot_Nil: "dot [] r = Fin 0" "dot c [] = Fin 0"
  by (simp_all add: dot_def)

lemma dot_zero:
  "\<forall>b\<in>set r. \<exists>y. b = Fin y \<Longrightarrow> dot (replicate k 0) r = Fin 0"
proof (induction r arbitrary: k)
  case Nil
  then show ?case by (simp add: dot_Nil)
next
  case (Cons b r)
  show ?case
  proof (cases k)
    case 0
    then show ?thesis by (simp add: dot_Nil)
  next
    case (Suc k')
    from Cons.prems obtain y where "b = Fin y" by auto
    moreover have "dot (replicate k' 0) r = Fin 0" using Cons by simp
    ultimately show ?thesis using Suc by (simp add: dot_Cons)
  qed
qed

lemma neutral_slice:
  assumes "length blk = m" and "itr < N"
  shows "take m (drop (itr * m) (concat (replicate N blk))) = blk"
  using assms(2)
proof (induction itr arbitrary: N)
  case 0
  then obtain N' where "N = Suc N'" by (cases N) auto
  then show ?case using assms(1) by simp
next
  case (Suc itr)
  then obtain N' where N: "N = Suc N'" "itr < N'" by (cases N) auto
  have "drop (Suc itr * m) (concat (replicate N blk)) = drop (itr * m) (concat (replicate N' blk))"
    using assms(1) N(1) by simp
  then show ?case using Suc.IH [OF N(2)] by simp
qed

lemma linspace_length: "linspace a b (Some n) = Inr ws \<Longrightarrow> length ws = nat n"
  by (auto simp: linspace_def split: if_splits)

lemma TabulatedFilter_init_stores:
  assumes "TabulatedFilter_init interp1d nm w t = Inr f"
  shows "wl f = w \<and> tm f = t"
  using assms
  by (cases w)
    (auto simp: TabulatedFilter_init_def Filter.extend_def TabulatedFilter.fields_def Filter_init_def
      split: if_splits sum.splits)

lemma legcol_0: "legcol x 0 = (if is_fin x then Fin 1 else NaN)"
  by (cases x) (simp_all add: is_fin_def)

lemma baseline_row_general:
  assumes "basis_state s n lg sl"
  shows "baseline_lcs (nlegendre s) (legs s) bl 0 (lcslices_of 0 (map snd lg))
           (replicate (length (concat (map snd lg))) (Fin 0)) =
         (if length lg * (n + 1) \<le> length bl then Inr (baseline_curves n bl 0 lg)
          else Inl ValueError)"
proof -
  have f: "\<forall>M\<in>set lg. fst M = n + 1" "nlegendre s = int n" "legs s = Some lg"
    using assms by (auto simp: basis_state_def list_all_iff)
  have lenrest: "length (replicate (length (concat (map snd lg))) (Fin 0 :: flt)) = length (concat (map snd lg))"
    by simp
  show ?thesis
  proof (cases "length lg * (n + 1) \<le> length bl")
    case True
    then have "(0 + length lg) * (n + 1) \<le> length bl" by simp
    from baseline_lcs_ok [OF f(1) _ _ this _ lenrest, of lg "[]" "[]" 0]
    show ?thesis using True f by simp
  next
    case False
    then have short: "length bl < (0 + length lg) * (n + 1)" by simp
    then have "lg \<noteq> []" by auto
    from baseline_lcs_short [OF f(1) _ _ short this _ lenrest, of lg "[]" "[]" 0]
    show ?thesis using False f by simp
  qed
qed

lemma baseline_general:
  assumes "basis_state s n lg sl"
  shows "baseline s p =
    (if list_all (\<lambda>pv. length lg * (n + 1) \<le> length (pyslice pv sl)) (atleast_2d p)
     then Inr (map (\<lambda>pv. baseline_curves n (pyslice pv sl) 0 lg) (atleast_2d p))
     else Inl ValueError)"
proof -
  from assms obtain ta where ta: "timea s = Some ta" "length ta = length (concat (map snd lg))"
    and sl: "sl_bl s = Some sl" and lcs: "lcslices s = Some (lcslices_of 0 (map snd lg))"
    by (auto simp: basis_state_def)
  have "baseline_rows s (length (concat (map snd lg))) m =
      (if list_all (\<lambda>pv. length lg * (n + 1) \<le> length (pyslice pv sl)) m
       then Inr (map (\<lambda>pv. baseline_curves n (pyslice pv sl) 0 lg) m) else Inl ValueError)" for m
    by (rule baseline_rows_all [OF sl lcs]) (rule baseline_row_general [OF assms])
  then show ?thesis using ta by (simp add: baseline_def)
qed

lemma setup_basis_state:
  assumes "setup_baseline ts fl deg reg = Inr s"
  shows "\<exists>lg sl. basis_state s (nat deg) lg sl \<and> map (\<lambda>M. length (snd M)) lg = map length ts \<and>
           sl = (int (length (parameters reg)), int (length (parameters reg)) + (deg + 1) * int (length ts))"
proof -
  note S = setup_baseline_Inr [OF assms]
  from S obtain w where w: "legs s = Some (basis_of ts deg w)" by (auto simp: basis_of_def)
  let ?lg = "basis_of ts deg w"
  have rows: "list_all (\<lambda>M. fst M = nat deg + 1 \<and> list_all (\<lambda>r. length r = nat deg + 1) (snd M)) ?lg"
    by (auto simp: basis_of_def basis_def list_all_iff)
  have sh: "map (\<lambda>M. length (snd M)) ?lg = map length ts"
    using basis_of_shape(1) [of ts deg w] by (simp add: comp_def)
  have slices: "lcslices_of 0 ts = lcslices_of 0 (map snd ?lg)"
    by (rule lcslices_of_cong) (simp only: basis_of_shape(1))
  have "basis_state s (nat deg) ?lg
          (int (length (parameters reg)), int (length (parameters reg)) + (deg + 1) * int (length ts))"
    using S w rows slices by (simp add: basis_state_def basis_of_shape(4))
  with sh show ?thesis by blast
qed

lemma baseline_curves_block:
  assumes "length blk = n + 1" and "itr + length Ms \<le> N"
  shows "baseline_curves n (concat (replicate N blk)) itr Ms = map (dot blk) (concat (map snd Ms))"
  using assms(2)
proof (induction Ms arbitrary: itr)
  case Nil
  then show ?case by simp
next
  case (Cons M Ms)
  have sl: "take (n + 1) (drop (itr * (n + 1)) (concat (replicate N blk))) = blk"
    using Cons.prems assms(1) by (intro neutral_slice) auto
  have "baseline_curves n (concat (replicate N blk)) (Suc itr) Ms = map (dot blk) (concat (map snd Ms))"
    using Cons.prems by (intro Cons.IH) auto
  then show ?case by (simp only: baseline_curves.simps sl) simp
qed

lemma dot_neutral:
  assumes "finite_row r" and "r \<noteq> []"
  shows "dot (1 # replicate n 0) r = Fin 1"
proof -
  from assms obtain rs where r: "r = Fin 1 # rs" and fin: "list_all is_fin rs"
    by (cases r) (auto simp: finite_row_def)
  have "\<forall>b\<in>set rs. \<exists>y. b = Fin y"
  proof
    fix b assume "b \<in> set rs"
    with fin have "is_fin b" by (simp add: list_all_iff)
    then show "\<exists>y. b = Fin y" by (cases b) (simp_all add: is_fin_def)
  qed
  then have "dot (replicate n 0) rs = Fin 0" by (rule dot_zero)
  then show ?thesis by (simp add: r dot_Cons)
qed

lemma neutral_row:
  assumes "basis_state s n lg sl" and "bl = neutral_block (length lg) (int n)"
    and "j < length (concat (map snd lg))" and "finite_row (concat (map snd lg) ! j)"
  shows "baseline_curves n bl 0 lg ! j = Fin 1"
proof -
  let ?rows = "concat (map snd lg)"
  have "baseline_curves n bl 0 lg = map (dot (1 # replicate n 0)) ?rows"
    unfolding assms(2) neutral_block_def by (simp add: baseline_curves_block)
  moreover have "?rows ! j \<noteq> []"
  proof -
    have "?rows ! j \<in> set ?rows" using assms(3) by (rule nth_mem)
    then obtain M where "M \<in> set lg" "?rows ! j \<in> set (snd M)" by auto
    then have "length (?rows ! j) = n + 1"
      using assms(1) by (auto simp: basis_state_def list_all_iff)
    then show ?thesis by auto
  qed
  ultimately show ?thesis using assms(3,4) by (simp add: dot_neutral)
qed

lemma neutral_long_enough:
  "pyslice pv sl = neutral_block N (int n) \<Longrightarrow> N * (n + 1) \<le> length (pyslice pv sl)"
  by (simp add: neutral_block_def length_concat sum_list_replicate)

lemma baseline_rows_ps: "baseline_rows (s\<lparr>ps := q\<rparr>) T m = baseline_rows s T m"
  by (induction m) (simp_all split: option.splits sum.splits)

lemma baseline_ps: "baseline (s\<lparr>ps := q\<rparr>) p = baseline s p"
  by (simp add: baseline_def baseline_rows_ps split: option.splits)

lemma block_end_stop:
  assumes "setup_baseline ts fl deg reg = Inr s"
  shows "snd (the (sl_bl s)) = int (block_end reg ts deg)"
proof -
  note S = setup_baseline_Inr [OF assms]
  then have "0 \<le> deg" by simp
  then show ?thesis using S by (simp add: block_end_def algebra_simps)
qed

lemma example_legs:
  "map_sum id legs (setup_baseline [[0, 1, 2], [10, 11, 12]] [] 2 \<lparr>parameters = [], blocks = []\<rparr>) =
     Inr (Some [(3, [[Fin 1, Fin (- (1 / 2)), Fin (- (1 / 8))], [Fin 1, Fin 0, Fin (- (1 / 2))],
                     [Fin 1, Fin (1 / 2), Fin (- (1 / 8))]]),
                (3, [[Fin 1, Fin (- (1 / 2)), Fin (- (1 / 8))], [Fin 1, Fin 0, Fin (- (1 / 2))],
                     [Fin 1, Fin (1 / 2), Fin (- (1 / 8))]])])"
  by (simp add: setup_baseline_def init_p_baseline_def LegendreBaseline_init_def concatenate_def
      center_def mean_def legvander_def add_lightcurve_block_def fsub_def Let_def
      numeral_2_eq_2 upt_conv_Cons)

section \<open>Claims\<close>

text \<open>
  C6. A one-dimensional parameter vector is treated as a batch of one row: \<open>baseline\<close>
  returns for it what it returns for the two-dimensional batch holding that one vector,
  in every state of the object. After \<open>setup\<close>, for a vector as long as the registered
  parameter vector, the call succeeds and returns one row with one value per time point.
\<close>

theorem one_dim_promoted:
  "baseline s (Arr1 v) = baseline s (Arr2 [v]) \<and>
   (setup_baseline ts fl deg reg = Inr s \<and> length v = length (parameters (the (ps s))) \<longrightarrow>
      (\<exists>row. baseline s (Arr1 v) = Inr [row] \<and> length row = length (concat ts)))"
proof -
  have "\<exists>row. baseline s (Arr1 v) = Inr [row] \<and> length row = length (concat ts)"
    if su: "setup_baseline ts fl deg reg = Inr s" and len: "length v = length (parameters (the (ps s)))"
  proof -
    obtain w sl where f: "windows s = Some w" "sl_bl s = Some sl"
      using setup_fields [OF su] by blast
    have "block_end reg ts deg \<le> length v"
      using setup_baseline_ps [OF su] len by auto
    then show ?thesis
      using baseline_after_setup [OF su f, of "Arr1 v"]
      by (simp add: length_baseline_curves basis_of_shape(4))
  qed
  then show ?thesis by (simp add: baseline_def)
qed

theorem one_dim_promoted_witness:
  "\<exists>s. setup_baseline [[0, 1, 2], [10, 11, 12]] [] 2 \<lparr>parameters = [], blocks = []\<rparr> = Inr s \<and>
       length [1, 0, 0, 1, 0, 0 :: real] = length (parameters (the (ps s))) \<and>
       baseline s (Arr1 [1, 0, 0, 1, 0, 0]) = baseline s (Arr2 [[1, 0, 0, 1, 0, 0]]) \<and>
       (\<exists>row. baseline s (Arr1 [1, 0, 0, 1, 0, 0]) = Inr [row] \<and> length row = 6)"
proof -
  from example_setup obtain s where
    s: "setup_baseline [[0, 1, 2], [10, 11, 12]] [] 2 \<lparr>parameters = [], blocks = []\<rparr> = Inr s"
    by blast
  have len: "length [1, 0, 0, 1, 0, 0 :: real] = length (parameters (the (ps s)))"
    using setup_baseline_ps [OF s] by (auto simp: block_end_def)
  from one_dim_promoted [of s "[1, 0, 0, 1, 0, 0]" "[[0, 1, 2], [10, 11, 12]]" "[]" 2
      "\<lparr>parameters = [], blocks = []\<rparr>"] s len
  obtain row where eq: "baseline s (Arr1 [1, 0, 0, 1, 0, 0]) = baseline s (Arr2 [[1, 0, 0, 1, 0, 0]])"
    and row: "baseline s (Arr1 [1, 0, 0, 1, 0, 0]) = Inr [row]"
      "length row = length (concat [[0, 1, 2], [10, 11, 12::real]])"
    by blast
  have "length row = 6" using row(2) by simp
  with s len eq row(1) show ?thesis by blast
qed

text \<open>
  C9. The output of \<open>baseline\<close> depends only on the baseline block of each parameter
  row: two batches with the same number of rows whose rows agree on the slice
  \<open>_sl_bl\<close> give the same result (the same values or the same error), in every state.
\<close>

theorem depends_only_on_block:
  assumes "length (atleast_2d p) = length (atleast_2d q)"
    and "\<forall>sl i. sl_bl s = Some sl \<and> i < length (atleast_2d p) \<longrightarrow>
           pyslice (atleast_2d p ! i) sl = pyslice (atleast_2d q ! i) sl"
  shows "baseline s p = baseline s q"
proof -
  have "baseline_rows s T (atleast_2d p) = baseline_rows s T (atleast_2d q)" for T
    using assms by (intro baseline_rows_cong) auto
  then show ?thesis by (cases "timea s") (simp_all add: baseline_def)
qed

theorem depends_only_on_block_witness:
  "\<exists>s. setup_baseline [[0, 2]] [] 0 \<lparr>parameters = [], blocks = []\<rparr> = Inr s \<and>
       sl_bl s = Some (0, 1) \<and>
       pyslice [1, 5 :: real] (0, 1) = pyslice [1, 9] (0, 1) \<and>
       baseline s (Arr1 [1, 5]) = baseline s (Arr1 [1, 9])"
proof -
  have "concat [[0, 2::real]] \<noteq> []" by simp
  from setup_baseline_succeeds [OF this, of 0 "[]" "\<lparr>parameters = [], blocks = []\<rparr>"]
  obtain s where s: "setup_baseline [[0, 2]] [] 0 \<lparr>parameters = [], blocks = []\<rparr> = Inr s" by auto
  have sl: "sl_bl s = Some (0, 1)" using setup_baseline_Inr [OF s] by simp
  have eq: "pyslice [1, 5 :: real] (0, 1) = pyslice [1, 9] (0, 1)"
    by (simp add: pyslice_def slice_index_def)
  have "baseline s (Arr1 [1, 5]) = baseline s (Arr1 [1, 9])"
    by (rule depends_only_on_block) (simp_all add: sl eq)
  with s sl eq show ?thesis by blast
qed

text \<open>
  C4. Basis construction subtracts from each light curve's times their own mean, takes
  as the one window the maximum minus the minimum of the concatenation of the centred
  arrays, and divides every centred array by that window. For the light curves
  \<open>[0,1,2]\<close> and \<open>[10,11,12]\<close> the window is 2.
\<close>

theorem window_is_shared_span:
  "(init_p_baseline self = Inr s \<longrightarrow>
      (\<exists>w. windows s = Some w \<and>
         w = Max (set (concat (map (\<lambda>t. map (\<lambda>x. x - mean t) t) (times_arr self)))) -
             Min (set (concat (map (\<lambda>t. map (\<lambda>x. x - mean t) t) (times_arr self)))) \<and>
         mtimes s = Some (map (\<lambda>t. map (\<lambda>x. fdiv (Fin (x - mean t)) (Fin w)) t) (times_arr self)))) \<and>
   map_sum id windows (setup_baseline [[0, 1, 2], [10, 11, 12]] fl 2 reg) = Inr (Some 2)"
proof (intro conjI impI)
  assume a: "init_p_baseline self = Inr s"
  from init_p_baseline_Inr [OF a] obtain w where
    w: "ptp (concat (map center (times_arr self))) = Inr w" "windows s = Some w"
      "mtimes s = Some (normalized (times_arr self) w)"
    by blast
  have cm: "map center (times_arr self) = map (\<lambda>t. map (\<lambda>x. x - mean t) t) (times_arr self)"
    by (simp add: center_map)
  have "concat (map center (times_arr self)) \<noteq> []"
  proof
    assume "concat (map center (times_arr self)) = []"
    then have "ptp (concat (map center (times_arr self))) = Inl ValueError" by (simp only: ptp.simps)
    with w(1) show False by simp
  qed
  from ptp_Max_Min [OF this] w(1)
  have "w = Max (set (concat (map center (times_arr self)))) - Min (set (concat (map center (times_arr self))))"
    by simp
  then show "\<exists>w. windows s = Some w \<and>
         w = Max (set (concat (map (\<lambda>t. map (\<lambda>x. x - mean t) t) (times_arr self)))) -
             Min (set (concat (map (\<lambda>t. map (\<lambda>x. x - mean t) t) (times_arr self)))) \<and>
         mtimes s = Some (map (\<lambda>t. map (\<lambda>x. fdiv (Fin (x - mean t)) (Fin w)) t) (times_arr self))"
    using w(2,3) unfolding cm normalized_nth by blast
next
  show "map_sum id windows (setup_baseline [[0, 1, 2], [10, 11, 12]] fl 2 reg) = Inr (Some 2)"
    by (simp add: setup_baseline_def init_p_baseline_def LegendreBaseline_init_def concatenate_def
      center_def mean_def legvander_def add_lightcurve_block_def Let_def)
qed

theorem window_is_shared_span_witness:
  "map_sum id windows (setup_baseline [[0, 1, 2], [10, 11, 12]] [] 2 \<lparr>parameters = [], blocks = []\<rparr>)
     = Inr (Some 2)"
  using window_is_shared_span [of _ _ "[]" "\<lparr>parameters = [], blocks = []\<rparr>"] by simp

text \<open>
  C10. \<open>TabulatedFilter.sample\<close> ignores its argument: for every \<open>n\<close> it returns the stored
  wavelength and transmission arrays, which are the arrays the constructor received, so
  two calls with different \<open>n\<close> agree. It does not resample: the base method
  \<open>Filter.sample\<close> returns \<open>n\<close> points whenever it returns, the override returns the stored
  points whatever \<open>n\<close> is.
\<close>

theorem tabulated_sample_ignores_n:
  "TabulatedFilter_sample f n = (wl f, tm f) \<and>
   TabulatedFilter_sample f n = TabulatedFilter_sample f n' \<and>
   (TabulatedFilter_init interp1d nm w t = Inr f \<longrightarrow> TabulatedFilter_sample f n = (w, t)) \<and>
   (Filter_sample call f (Some k) = Inr (ws, tr) \<longrightarrow> length ws = nat k)"
proof -
  have "length ws = nat k" if "Filter_sample call f (Some k) = Inr (ws, tr)"
  proof -
    from that have "linspace (wl_min f + 1 / 100000) (wl_max f - 1 / 100000) (Some k) = Inr ws"
      by (auto simp: Filter_sample_def split: sum.splits)
    then show ?thesis by (rule linspace_length)
  qed
  then show ?thesis
    using TabulatedFilter_init_stores [of interp1d nm w t f]
    by (auto simp: TabulatedFilter_sample_def)
qed

theorem tabulated_sample_ignores_n_witness:
  "\<exists>F. TabulatedFilter_init (\<lambda>w t. Inr (\<lambda>x. Inr x)) ''k'' [1, 2, 3, 4] [0, 1, 1, 0] = Inr F \<and>
       TabulatedFilter_sample F (Some 2) = ([1, 2, 3, 4], [0, 1, 1, 0]) \<and>
       TabulatedFilter_sample F None = ([1, 2, 3, 4], [0, 1, 1, 0]) \<and>
       (\<exists>ws tr. Filter_sample TabulatedFilter_call F (Some 2) = Inr (ws, tr) \<and> length ws = 2)"
proof -
  let ?F = "\<lparr>name = ''k'', wl_min = 1, wl_max = 4, wl = [1, 2, 3, 4], tm = [0, 1, 1, 0],
          ip = (\<lambda>x. Inr x)\<rparr>"
  have init: "TabulatedFilter_init (\<lambda>w t. Inr (\<lambda>x. Inr x)) ''k'' [1, 2, 3, 4] [0, 1, 1, 0] = Inr ?F"
    by (simp add: TabulatedFilter_init_def Filter_init_def Filter.extend_def
        TabulatedFilter.fields_def)
  obtain ws tr where b: "Filter_sample TabulatedFilter_call ?F (Some 2) = Inr (ws, tr)"
    by (simp add: Filter_sample_def linspace_def TabulatedFilter_call_def)
  note T = tabulated_sample_ignores_n [where f = ?F and ?interp1d = "\<lambda>w t. Inr (\<lambda>x. Inr x)"
      and nm = "''k''" and w = "[1, 2, 3, 4]" and t = "[0, 1, 1, 0]" and call = TabulatedFilter_call
      and k = 2 and ws = ws and tr = tr]
  have "TabulatedFilter_sample ?F (Some 2) = ([1, 2, 3, 4], [0, 1, 1, 0])"
    using T [where n = "Some 2"] init by blast
  moreover have "TabulatedFilter_sample ?F None = ([1, 2, 3, 4], [0, 1, 1, 0])"
    using T [where n = None] init by blast
  moreover have "length ws = 2" using T [where n = None] b by simp
  ultimately show ?thesis using init b by blast
qed

text \<open>
  C2, as the code has it. Basis construction has no check of the window and raises
  nothing for a zero window: it returns a result exactly when there is at least one time
  point, the degree is not negative, and the fluxes and the parameter set are present.
  In particular \<open>setup\<close> with one light curve of \<open>k > 0\<close> copies of one timestamp returns
  a result.
\<close>

theorem zero_window_no_error:
  "(\<exists>s. init_p_baseline self = Inr s) =
     (concat (times_arr self) \<noteq> [] \<and> 0 \<le> nlegendre self \<and> ofluxa self \<noteq> None \<and> ps self \<noteq> None) \<and>
   (0 < k \<and> 0 \<le> deg \<longrightarrow> (\<exists>s'. setup_baseline [replicate k x] fl deg reg = Inr s'))"
proof (intro conjI impI)
  let ?ts = "times_arr self"
  show "(\<exists>s. init_p_baseline self = Inr s) =
     (concat ?ts \<noteq> [] \<and> 0 \<le> nlegendre self \<and> ofluxa self \<noteq> None \<and> ps self \<noteq> None)"
  proof
    assume "\<exists>s. init_p_baseline self = Inr s"
    then obtain s where s: "init_p_baseline self = Inr s" by blast
    from init_p_baseline_Inr [OF s] obtain w where w: "ptp (concat (map center ?ts)) = Inr w"
      and deg: "0 \<le> nlegendre self" and reg: "ps self \<noteq> None"
      by auto
    have "concat (map center ?ts) \<noteq> []" using w by (cases "concat (map center ?ts)") auto
    then have ne: "concat ?ts \<noteq> []" by (auto simp: center_def)
    have "ofluxa self \<noteq> None"
      using s by (auto simp: init_p_baseline_def Let_def split: sum.splits option.splits)
    with ne deg reg
    show "concat ?ts \<noteq> [] \<and> 0 \<le> nlegendre self \<and> ofluxa self \<noteq> None \<and> ps self \<noteq> None"
      by simp
  next
    assume a: "concat ?ts \<noteq> [] \<and> 0 \<le> nlegendre self \<and> ofluxa self \<noteq> None \<and> ps self \<noteq> None"
    then have ne: "?ts \<noteq> []" by auto
    have "concat (map center ?ts) \<noteq> []" using a by (auto simp: center_def)
    then obtain w where "ptp (concat (map center ?ts)) = Inr w"
      using ptp_Max_Min by blast
    then show "\<exists>s. init_p_baseline self = Inr s"
      using a ne
      by (auto simp: init_p_baseline_def concatenate_def Let_def legvander_each_ok)
  qed
next
  assume "0 < k \<and> 0 \<le> deg"
  then have "concat [replicate k x] \<noteq> []" "0 \<le> deg" by auto
  then show "\<exists>s'. setup_baseline [replicate k x] fl deg reg = Inr s'"
    by (rule setup_baseline_succeeds)
qed

theorem zero_window_no_error_witness:
  "(0::nat) < 2 \<and> (0::int) \<le> 1 \<and>
   (\<exists>s'. setup_baseline [replicate 2 3] [[1, 1]] 1 \<lparr>parameters = [], blocks = []\<rparr> = Inr s')"
  using zero_window_no_error [where k = 2 and deg = 1 and x = 3 and fl = "[[1, 1]]"
      and reg = "\<lparr>parameters = [], blocks = []\<rparr>"]
  by simp

theorem zero_window_counterexample:
  "map_sum id windows (setup_baseline [[3, 3]] [[1, 1]] 1 \<lparr>parameters = [], blocks = []\<rparr>) = Inr (Some 0)"
  by (simp add: setup_baseline_def init_p_baseline_def LegendreBaseline_init_def concatenate_def
      center_def mean_def legvander_def add_lightcurve_block_def Let_def)

text \<open>
  C7, as the code has it. The basis matrix of light curve \<open>i\<close> has one row per time
  point and \<open>nlegendre + 1\<close> columns. Column 0 of a row is \<open>x*0 + 1\<close> for the normalised
  time \<open>x\<close> of that row: 1 when \<open>x\<close> is finite, nan when \<open>x\<close> is nan or infinite, as it
  is for a zero window.
\<close>

theorem basis_shape_first_column:
  assumes "init_p_baseline self = Inr s"
  shows "\<exists>mts lg. mtimes s = Some mts \<and> legs s = Some lg \<and>
           length mts = length (times_arr self) \<and> length lg = length (times_arr self) \<and>
           (\<forall>i<length (times_arr self).
              length (mts ! i) = length (times_arr self ! i) \<and>
              fst (lg ! i) = nat (nlegendre self) + 1 \<and>
              length (snd (lg ! i)) = length (times_arr self ! i) \<and>
              (\<forall>j<length (times_arr self ! i).
                 length (snd (lg ! i) ! j) = nat (nlegendre self) + 1 \<and>
                 snd (lg ! i) ! j ! 0 = (if is_fin (mts ! i ! j) then Fin 1 else NaN)))"
proof -
  let ?ts = "times_arr self" and ?n = "nat (nlegendre self)"
  from init_p_baseline_Inr [OF assms] obtain w where
    w: "mtimes s = Some (normalized ?ts w)"
      "legs s = Some (map (basis ?n) (normalized ?ts w))"
    by blast
  let ?mts = "normalized ?ts w"
  let ?lg = "map (basis ?n) ?mts"
  have len: "length ?mts = length ?ts" "length ?lg = length ?ts" by (simp_all add: normalized_def)
  have "length (?mts ! i) = length (?ts ! i) \<and> fst (?lg ! i) = ?n + 1 \<and>
          length (snd (?lg ! i)) = length (?ts ! i) \<and>
          (\<forall>j<length (?ts ! i). length (snd (?lg ! i) ! j) = ?n + 1 \<and>
              snd (?lg ! i) ! j ! 0 = (if is_fin (?mts ! i ! j) then Fin 1 else NaN))"
    if i: "i < length ?ts" for i
  proof -
    have l: "length (?mts ! i) = length (?ts ! i)"
      using i by (simp add: normalized_def length_center)
    have nth: "?lg ! i = basis ?n (?mts ! i)" using i len by simp
    have rows: "snd (?lg ! i) = map (\<lambda>xi. map (legcol xi) [0..<?n + 1]) (?mts ! i)"
      by (simp add: nth basis_def del: upt_Suc)
    have "length (snd (?lg ! i) ! j) = ?n + 1 \<and>
            snd (?lg ! i) ! j ! 0 = (if is_fin (?mts ! i ! j) then Fin 1 else NaN)"
      if j: "j < length (?ts ! i)" for j
    proof -
      have r: "snd (?lg ! i) ! j = map (legcol (?mts ! i ! j)) [0..<?n + 1]"
        using j l by (simp add: rows del: upt_Suc)
      have "map (legcol (?mts ! i ! j)) [0..<?n + 1] ! 0 = legcol (?mts ! i ! j) 0"
        by (simp add: upt_conv_Cons del: upt_Suc)
      then show ?thesis by (simp add: r legcol_0 del: upt_Suc legcol.simps)
    qed
    then show ?thesis using l by (simp add: nth basis_def del: upt_Suc)
  qed
  then show ?thesis using w len by blast
qed

theorem basis_shape_first_column_witness:
  "\<exists>s. setup_baseline [[0, 1, 2], [10, 11, 12]] [] 2 \<lparr>parameters = [], blocks = []\<rparr> = Inr s \<and>
       (\<exists>mts lg. mtimes s = Some mts \<and> legs s = Some lg \<and> length mts = 2 \<and> length lg = 2 \<and>
           (\<forall>i<2. length (mts ! i) = 3 \<and> fst (lg ! i) = 3 \<and> length (snd (lg ! i)) = 3 \<and>
              (\<forall>j<3. length (snd (lg ! i) ! j) = 3 \<and>
                 snd (lg ! i) ! j ! 0 = (if is_fin (mts ! i ! j) then Fin 1 else NaN))))"
proof -
  let ?ts = "[[0, 1, 2], [10, 11, 12::real]]"
  from example_setup obtain s where
    s: "setup_baseline ?ts [] 2 \<lparr>parameters = [], blocks = []\<rparr> = Inr s"
    by blast
  from basis_shape_first_column [OF s [unfolded setup_baseline_def]] obtain mts lg where
    a: "mtimes s = Some mts" "legs s = Some lg" "length mts = 2" "length lg = 2"
    and b: "\<forall>i<2. length (mts ! i) = length (?ts ! i) \<and> fst (lg ! i) = 3 \<and>
              length (snd (lg ! i)) = length (?ts ! i) \<and>
              (\<forall>j<length (?ts ! i). length (snd (lg ! i) ! j) = 3 \<and>
                 snd (lg ! i) ! j ! 0 = (if is_fin (mts ! i ! j) then Fin 1 else NaN))"
    by (auto simp: LegendreBaseline_init_def)
  have l: "length (?ts ! i) = 3" if "i < 2" for i
    using that by (cases i) (auto simp: less_Suc_eq)
  from b l have "\<forall>i<2. length (mts ! i) = 3 \<and> fst (lg ! i) = 3 \<and> length (snd (lg ! i)) = 3 \<and>
              (\<forall>j<3. length (snd (lg ! i) ! j) = 3 \<and>
                 snd (lg ! i) ! j ! 0 = (if is_fin (mts ! i ! j) then Fin 1 else NaN))"
    by simp
  with s a show ?thesis by blast
qed

theorem first_column_counterexample:
  "map_sum id legs (setup_baseline [[5]] [[1]] 0 \<lparr>parameters = [], blocks = []\<rparr>) = Inr (Some [(1, [[NaN]])])"
  by (simp add: setup_baseline_def init_p_baseline_def LegendreBaseline_init_def concatenate_def
      center_def mean_def legvander_def add_lightcurve_block_def Let_def)

text \<open>
  C1, as the code has it. \<open>setup\<close> leaves basis matrices of the shapes of the light
  curves. For basis matrices of these shapes, whatever their values, a parameter vector
  whose baseline block holds, for every light curve, the intercept 1 and \<open>nlegendre\<close>
  coefficients 0 is evaluated without error, and the output is exactly 1 at every time
  point whose basis row holds 1 in column 0 and finite values in the other columns.
  The same holds for each such row of a batch of \<open>P\<close> columns that is evaluated.
\<close>

theorem neutral_parameters_give_one:
  "(setup_baseline ts fl deg reg = Inr s \<longrightarrow>
      (\<exists>lg sl. basis_state s (nat deg) lg sl \<and> map (\<lambda>M. length (snd M)) lg = map length ts)) \<and>
   (basis_state s n lg sl \<and> pyslice pv sl = neutral_block (length lg) (int n) \<longrightarrow>
      (\<exists>row. baseline s (Arr1 pv) = Inr [row] \<and> length row = length (concat (map snd lg)) \<and>
         (\<forall>j<length row. finite_row (concat (map snd lg) ! j) \<longrightarrow> row ! j = Fin 1))) \<and>
   (basis_state s n lg sl \<and> list_all (\<lambda>pv. length pv = P) (atleast_2d p) \<and>
      baseline s p = Inr out \<and> i < length (atleast_2d p) \<and>
      pyslice (atleast_2d p ! i) sl = neutral_block (length lg) (int n) \<longrightarrow>
      length (out ! i) = length (concat (map snd lg)) \<and>
      (\<forall>j<length (concat (map snd lg)). finite_row (concat (map snd lg) ! j) \<longrightarrow> out ! i ! j = Fin 1))"
proof (intro conjI impI)
  assume "setup_baseline ts fl deg reg = Inr s"
  from setup_basis_state [OF this]
  show "\<exists>lg sl. basis_state s (nat deg) lg sl \<and> map (\<lambda>M. length (snd M)) lg = map length ts"
    by blast
next
  assume a: "basis_state s n lg sl \<and> pyslice pv sl = neutral_block (length lg) (int n)"
  let ?row = "baseline_curves n (pyslice pv sl) 0 lg"
  have "baseline s (Arr1 pv) = Inr [?row]"
    using baseline_general [of s n lg sl "Arr1 pv"] a neutral_long_enough [of pv sl "length lg" n]
    by simp
  moreover have "length ?row = length (concat (map snd lg))" by (rule length_baseline_curves)
  moreover have "\<forall>j<length ?row. finite_row (concat (map snd lg) ! j) \<longrightarrow> ?row ! j = Fin 1"
    using a neutral_row [of s n lg sl "pyslice pv sl"] by (simp add: length_baseline_curves)
  ultimately show "\<exists>row. baseline s (Arr1 pv) = Inr [row] \<and> length row = length (concat (map snd lg)) \<and>
         (\<forall>j<length row. finite_row (concat (map snd lg) ! j) \<longrightarrow> row ! j = Fin 1)"
    by blast
next
  assume a: "basis_state s n lg sl \<and> list_all (\<lambda>pv. length pv = P) (atleast_2d p) \<and>
      baseline s p = Inr out \<and> i < length (atleast_2d p) \<and>
      pyslice (atleast_2d p ! i) sl = neutral_block (length lg) (int n)"
  let ?row = "\<lambda>pv. baseline_curves n (pyslice pv sl) 0 lg"
  have "out = map ?row (atleast_2d p)"
    using baseline_general [of s n lg sl p] a by (simp split: if_splits)
  then have o: "out ! i = ?row (atleast_2d p ! i)" using a by simp
  show "length (out ! i) = length (concat (map snd lg))"
    unfolding o by (rule length_baseline_curves)
  show "\<forall>j<length (concat (map snd lg)). finite_row (concat (map snd lg) ! j) \<longrightarrow> out ! i ! j = Fin 1"
    unfolding o using a neutral_row [of s n lg sl "pyslice (atleast_2d p ! i) sl"] by simp
qed

theorem neutral_parameters_give_one_witness:
  "\<exists>s lg sl. setup_baseline [[0, 1, 2], [10, 11, 12]] [] 2 \<lparr>parameters = [], blocks = []\<rparr> = Inr s \<and>
       basis_state s 2 lg sl \<and>
       pyslice [1, 0, 0, 1, 0, 0] sl = neutral_block (length lg) 2 \<and>
       list_all finite_row (concat (map snd lg)) \<and>
       baseline s (Arr1 [1, 0, 0, 1, 0, 0]) = Inr [replicate 6 (Fin 1)]"
proof -
  let ?reg = "\<lparr>parameters = [], blocks = []\<rparr>"
  let ?ts = "[[0, 1, 2], [10, 11, 12::real]]"
  let ?pv = "[1, 0, 0, 1, 0, 0 :: real]"
  from example_setup obtain s where s: "setup_baseline ?ts [] 2 ?reg = Inr s" by blast
  note T = neutral_parameters_give_one [where ts = ?ts and fl = "[]" and deg = 2 and reg = ?reg and s = s]
  from T [THEN conjunct1, rule_format, OF s] obtain lg sl where "basis_state s (nat 2) lg sl"
    by blast
  then have bs: "basis_state s 2 lg sl" by simp
  have sl: "sl = (0, 6)" using bs setup_baseline_Inr [OF s] by (simp add: basis_state_def)
  have "legs s = Some lg" using bs by (simp add: basis_state_def)
  with example_legs s have lg: "lg = [(3, [[Fin 1, Fin (- (1 / 2)), Fin (- (1 / 8))], [Fin 1, Fin 0, Fin (- (1 / 2))],
                     [Fin 1, Fin (1 / 2), Fin (- (1 / 8))]]),
                (3, [[Fin 1, Fin (- (1 / 2)), Fin (- (1 / 8))], [Fin 1, Fin 0, Fin (- (1 / 2))],
                     [Fin 1, Fin (1 / 2), Fin (- (1 / 8))]])]"
    by simp
  have nb: "pyslice ?pv sl = neutral_block (length lg) 2"
    by (simp add: sl lg pyslice_def slice_index_def neutral_block_def numeral_2_eq_2)
  have fr: "list_all finite_row (concat (map snd lg))"
    by (simp add: lg finite_row_def is_fin_def)
  have len: "length (concat (map snd lg)) = 6" by (simp add: lg)
  have "int 2 = 2" by simp
  with nb have nb': "pyslice ?pv sl = neutral_block (length lg) (int 2)" by (simp only:)
  have "\<exists>row. baseline s (Arr1 ?pv) = Inr [row] \<and> length row = length (concat (map snd lg)) \<and>
         (\<forall>j<length row. finite_row (concat (map snd lg) ! j) \<longrightarrow> row ! j = Fin 1)"
    by (rule T [where n = 2 and lg = lg and sl = sl and pv = ?pv, THEN conjunct2, THEN conjunct1,
          rule_format, OF conjI [OF bs nb']])
  then obtain row where row: "baseline s (Arr1 ?pv) = Inr [row]" "length row = length (concat (map snd lg))"
    "\<forall>j<length row. finite_row (concat (map snd lg) ! j) \<longrightarrow> row ! j = Fin 1"
    by blast
  have "row = replicate 6 (Fin 1)"
  proof (rule nth_equalityI)
    show "length row = length (replicate 6 (Fin 1 :: flt))" using row(2) len by simp
  next
    fix j assume j: "j < length row"
    then have "finite_row (concat (map snd lg) ! j)"
      using fr row(2) by (simp add: list_all_length)
    with row(3) j have "row ! j = Fin 1" by blast
    then show "row ! j = replicate 6 (Fin 1) ! j" using j row(2) len by simp
  qed
  with s bs nb fr row(1) show ?thesis by blast
qed

theorem neutral_counterexample:
  "setup_then_baseline [[5]] [[1]] 0 \<lparr>parameters = [], blocks = []\<rparr> (Arr1 [1]) = Inr [[NaN]]"
  by (simp add: setup_then_baseline_def setup_baseline_def init_p_baseline_def
      LegendreBaseline_init_def center_def mean_def concatenate_def legvander_def
      add_lightcurve_block_def baseline_def pyslice_def slice_index_def matmul_T_def dot_def
      setslice_def Let_def)

text \<open>
  C3, as the code has it. After \<open>setup\<close>, for a batch whose rows have \<open>P\<close> columns:
  \<open>baseline\<close> raises exactly when the batch has a row and \<open>P\<close> is less than the end of
  the slice of the baseline block, and the error is numpy's \<open>ValueError\<close> of the matrix
  product; a batch with no row, or with \<open>P\<close> at least the end of the slice, is evaluated.
  The parameter set is not read, so parameters registered later change nothing. Before
  \<open>setup\<close> the call raises \<open>AttributeError\<close>.
\<close>

theorem errors_of_baseline:
  "(setup_baseline ts fl deg reg = Inr s \<and> list_all (\<lambda>pv. length pv = P) (atleast_2d p) \<longrightarrow>
      (atleast_2d p \<noteq> [] \<and> int P < snd (the (sl_bl s)) \<longrightarrow> baseline s p = Inl ValueError) \<and>
      (atleast_2d p = [] \<or> snd (the (sl_bl s)) \<le> int P \<longrightarrow>
         (\<exists>out. baseline s p = Inr out \<and> length out = length (atleast_2d p))) \<and>
      baseline (s\<lparr>ps := q\<rparr>) p = baseline s p) \<and>
   baseline (LegendreBaseline_init deg) p = Inl AttributeError"
proof (intro conjI impI)
  assume a: "setup_baseline ts fl deg reg = Inr s \<and> list_all (\<lambda>pv. length pv = P) (atleast_2d p)"
  then have su: "setup_baseline ts fl deg reg = Inr s"
    and rect: "\<forall>pv\<in>set (atleast_2d p). length pv = P"
    by (simp_all add: list_all_iff)
  obtain w sl where f: "windows s = Some w" "sl_bl s = Some sl"
    using setup_fields [OF su] by blast
  note B = baseline_after_setup [OF su f, of p]
  note E = block_end_stop [OF su]
  {
    assume b: "atleast_2d p \<noteq> [] \<and> int P < snd (the (sl_bl s))"
    then obtain pv where "pv \<in> set (atleast_2d p)" by (cases "atleast_2d p") auto
    moreover from b E have "\<not> block_end reg ts deg \<le> P" by simp
    ultimately have "\<not> list_all (\<lambda>pv. block_end reg ts deg \<le> length pv) (atleast_2d p)"
      using rect by (auto simp: list_all_iff)
    then show "baseline s p = Inl ValueError" using B by simp
  }
  {
    assume "atleast_2d p = [] \<or> snd (the (sl_bl s)) \<le> int P"
    then have "list_all (\<lambda>pv. block_end reg ts deg \<le> length pv) (atleast_2d p)"
      using rect E by (auto simp: list_all_iff)
    then show "\<exists>out. baseline s p = Inr out \<and> length out = length (atleast_2d p)"
      using B by simp
  }
  show "baseline (s\<lparr>ps := q\<rparr>) p = baseline s p" by (rule baseline_ps)
next
  show "baseline (LegendreBaseline_init deg) p = Inl AttributeError"
    by (simp add: baseline_def LegendreBaseline_init_def)
qed

theorem errors_of_baseline_witness:
  "\<exists>s. setup_baseline [[0, 2]] [] 0 \<lparr>parameters = [], blocks = []\<rparr> = Inr s \<and>
       snd (the (sl_bl s)) = 1 \<and>
       list_all (\<lambda>pv. length pv = 0) (atleast_2d (Arr2 [[], []])) \<and>
       baseline s (Arr2 [[], []]) = Inl ValueError \<and>
       list_all (\<lambda>pv. length pv = 2) (atleast_2d (Arr2 [[1, 7], [2, 9]])) \<and>
       (\<exists>out. baseline s (Arr2 [[1, 7], [2, 9]]) = Inr out \<and> length out = 2) \<and>
       baseline (LegendreBaseline_init 0) (Arr2 [[1]]) = Inl AttributeError"
proof -
  let ?reg = "\<lparr>parameters = [], blocks = []\<rparr>"
  have "concat [[0, 2::real]] \<noteq> []" by simp
  from setup_baseline_succeeds [OF this, of 0 "[]" ?reg]
  obtain s where s: "setup_baseline [[0, 2]] [] 0 ?reg = Inr s" by auto
  have e: "snd (the (sl_bl s)) = 1" using setup_baseline_Inr [OF s] by simp
  have r0: "list_all (\<lambda>pv. length pv = 0) (atleast_2d (Arr2 [[], []]))" by simp
  have r2: "list_all (\<lambda>pv. length pv = 2) (atleast_2d (Arr2 [[1, 7], [2, 9]]))" by simp
  from errors_of_baseline [of "[[0, 2]]" "[]" 0 ?reg s 0 "Arr2 [[], []]"] s e r0
  have a: "baseline s (Arr2 [[], []]) = Inl ValueError" by simp
  from errors_of_baseline [of "[[0, 2]]" "[]" 0 ?reg s 2 "Arr2 [[1, 7], [2, 9]]"] s e r2
  have b: "\<exists>out. baseline s (Arr2 [[1, 7], [2, 9]]) = Inr out \<and> length out = 2"
    by (simp add: numeral_2_eq_2)
  from errors_of_baseline [of "[[0, 2]]" "[]" 0 ?reg s 0 "Arr2 [[1]]"]
  have c: "baseline (LegendreBaseline_init 0) (Arr2 [[1]]) = Inl AttributeError" by simp
  from s e r0 a r2 b c show ?thesis by blast
qed

theorem extra_columns_counterexample:
  "setup_then_baseline [[0, 2]] [[1, 1]] 0 \<lparr>parameters = [], blocks = []\<rparr> (Arr2 [[1, 7]])
     = Inr [[Fin 1, Fin 1]] \<and>
   map_sum id (\<lambda>s. length (parameters (the (ps s))))
     (setup_baseline [[0, 2]] [[1, 1]] 0 \<lparr>parameters = [], blocks = []\<rparr>) = Inr 1"
  by (simp add: setup_then_baseline_def setup_baseline_def init_p_baseline_def
      LegendreBaseline_init_def center_def mean_def concatenate_def legvander_def
      add_lightcurve_block_def baseline_def pyslice_def slice_index_def matmul_T_def dot_def
      setslice_def baseline_parameters_def Let_def)

end
